theory Spec2Isabelle
  imports Complex_Main "HOL-Library.List_Lexorder" "HOL-Library.Char_ord"
begin

section \<open>E-commerce analytics dashboard: the computations of app.py\<close>

text \<open>
  The dashboard computes its tables with pandas. Numbers that pandas holds as float64 are
  modelled as exact reals; the three non-finite results a division can produce are kept
  apart from the finite ones, so that a NaN never passes for a number. Rounding errors of
  the binary representation are not modelled. Where a result of the code can turn on such
  an error (the quantile edges of the RFM scores, the rounded return rates), the float64
  computation is a parameter of the model, and the theorems hold for every value of it
  that has the property they name.
\<close>

subsection \<open>Floating-point values\<close>

datatype flt = Fin real | PInf | NInf | NaN

definition sgn_inf :: "real \<Rightarrow> flt" where
  "sgn_inf s = (if s > 0 then PInf else if s < 0 then NInf else NaN)"

fun fsign :: "flt \<Rightarrow> real" where
  "fsign (Fin a) = sgn a"
| "fsign PInf = 1"
| "fsign NInf = - 1"
| "fsign NaN = 0"

fun fneg :: "flt \<Rightarrow> flt" where
  "fneg (Fin a) = Fin (- a)"
| "fneg PInf = NInf"
| "fneg NInf = PInf"
| "fneg NaN = NaN"

fun fadd :: "flt \<Rightarrow> flt \<Rightarrow> flt" where
  "fadd (Fin a) (Fin b) = Fin (a + b)"
| "fadd NaN y = NaN"
| "fadd x NaN = NaN"
| "fadd PInf NInf = NaN"
| "fadd NInf PInf = NaN"
| "fadd PInf y = PInf"
| "fadd x PInf = PInf"
| "fadd NInf y = NInf"
| "fadd x NInf = NInf"

definition fsub :: "flt \<Rightarrow> flt \<Rightarrow> flt" where
  "fsub x y = fadd x (fneg y)"

fun fmul :: "flt \<Rightarrow> flt \<Rightarrow> flt" where
  "fmul (Fin a) (Fin b) = Fin (a * b)"
| "fmul NaN y = NaN"
| "fmul x NaN = NaN"
| "fmul x y = sgn_inf (fsign x * fsign y)"

text \<open>Division by zero gives an infinity or NaN, as numpy does (zero taken as +0).\<close>

fun fdiv :: "flt \<Rightarrow> flt \<Rightarrow> flt" where
  "fdiv (Fin a) (Fin b) = (if b = 0 then sgn_inf a else Fin (a / b))"
| "fdiv NaN y = NaN"
| "fdiv x NaN = NaN"
| "fdiv (Fin a) y = Fin 0"
| "fdiv x (Fin b) = (if b \<ge> 0 then x else fneg x)"
| "fdiv x y = NaN"

text \<open>Comparisons: every comparison with NaN is false.\<close>

fun fle :: "flt \<Rightarrow> flt \<Rightarrow> bool" where
  "fle (Fin a) (Fin b) = (a \<le> b)"
| "fle NaN y = False"
| "fle x NaN = False"
| "fle NInf y = True"
| "fle x PInf = True"
| "fle x y = False"

fun fgt :: "flt \<Rightarrow> flt \<Rightarrow> bool" where
  "fgt (Fin a) (Fin b) = (a > b)"
| "fgt NaN y = False"
| "fgt x NaN = False"
| "fgt PInf PInf = False"
| "fgt NInf NInf = False"
| "fgt PInf y = True"
| "fgt x NInf = True"
| "fgt x y = False"

text \<open>\<^verbatim>\<open>round(d)\<close>: to d decimals, a tie going to the even neighbour.\<close>

definition rint :: "real \<Rightarrow> int" where
  "rint x =
     (let f = \<lfloor>x\<rfloor>; d = x - of_int f
      in if d < 1 / 2 then f else if d > 1 / 2 then f + 1 else if even f then f else f + 1)"

definition round_dec :: "nat \<Rightarrow> real \<Rightarrow> real" where
  "round_dec d x = of_int (rint (x * 10 ^ d)) / 10 ^ d"

fun fround :: "nat \<Rightarrow> flt \<Rightarrow> flt" where
  "fround d (Fin x) = Fin (round_dec d x)"
| "fround d x = x"

subsection \<open>Series reductions of pandas\<close>

text \<open>
  \<^verbatim>\<open>Series.sum()\<close> is 0 on an empty series; \<^verbatim>\<open>Series.mean()\<close> is NaN on an empty
  series; \<^verbatim>\<open>Series.std()\<close> is the sample standard deviation (divisor n - 1) and NaN for
  fewer than two values.
\<close>

definition series_sum :: "real list \<Rightarrow> flt" where
  "series_sum xs = Fin (sum_list xs)"

definition series_mean :: "real list \<Rightarrow> flt" where
  "series_mean xs = (if xs = [] then NaN else Fin (sum_list xs / real (length xs)))"


subsection \<open>The order table\<close>

text \<open>
  One row of the table \<^verbatim>\<open>load_data()\<close> returns: \<open>order_date\<close> is the timestamp in
  nanoseconds (datetime64[ns]), \<open>discount_applied\<close> is the column after
  \<^verbatim>\<open>fillna(0)\<close>.
\<close>

record order =
  order_id :: nat
  customer_id :: nat
  order_date :: int
  order_value :: real
  discount_applied :: real
  product_category :: string
  order_status :: string

subsection \<open>Revenue volatility (Revenue Analysis page)\<close>









subsection \<open>Discount impact (Revenue Analysis page)\<close>

definition no_discount_revenue :: "order list \<Rightarrow> flt" where
  "no_discount_revenue df = series_sum (map order_value (filter (\<lambda>x. discount_applied x = 0) df))"

definition with_discount_revenue :: "order list \<Rightarrow> flt" where
  "with_discount_revenue df = series_sum (map order_value (filter (\<lambda>x. discount_applied x > 0) df))"

definition no_discount_avg :: "order list \<Rightarrow> flt" where
  "no_discount_avg df = series_mean (map order_value (filter (\<lambda>x. discount_applied x = 0) df))"

definition with_discount_avg :: "order list \<Rightarrow> flt" where
  "with_discount_avg df = series_mean (map order_value (filter (\<lambda>x. discount_applied x > 0) df))"

definition percentage_diff :: "order list \<Rightarrow> flt" where
  "percentage_diff df =
     fmul (fdiv (fsub (no_discount_avg df) (with_discount_avg df)) (no_discount_avg df)) (Fin 100)"

definition discount_info_shown :: "order list \<Rightarrow> bool" where
  "discount_info_shown df = fgt (percentage_diff df) (Fin 0)"

definition all_undiscounted :: "order list \<Rightarrow> bool" where
  "all_undiscounted df = list_all (\<lambda>x. discount_applied x = 0) df"

subsection \<open>Category analysis (Product and Category page)\<close>

text \<open>
  \<^verbatim>\<open>groupby(key)\<close> makes one group per distinct key, the keys in ascending order; a
  group holds the rows of its key, so no group is empty.
\<close>

definition group_keys :: "('r \<Rightarrow> 'k::linorder) \<Rightarrow> 'r list \<Rightarrow> 'k list" where
  "group_keys key df = sort (remdups (map key df))"

definition group_of :: "('r \<Rightarrow> 'k) \<Rightarrow> 'r list \<Rightarrow> 'k \<Rightarrow> 'r list" where
  "group_of key df k = filter (\<lambda>x. key x = k) df"

record category_row =
  category :: string
  Order_count :: nat
  Total_Revenue :: real
  Avg_Revenue_per_Order :: flt
  Unique_Customers :: nat
  Revenue_pct :: flt
  Order_pct :: flt

text \<open>
  The aggregation with its \<^verbatim>\<open>.round(2)\<close>; the two percentage columns are filled in by
  \<open>category_analysis\<close>, which ends with \<^verbatim>\<open>sort_values(by="Total_Revenue",
  ascending=False)\<close>. Rows of equal revenue keep their order here; pandas does not promise
  an order for them, and no theorem below depends on it.
\<close>

definition category_agg :: "order list \<Rightarrow> category_row list" where
  "category_agg df =
     map (\<lambda>c. let g = group_of product_category df c
              in \<lparr>category = c,
                  Order_count = length g,
                  Total_Revenue = round_dec 2 (sum_list (map order_value g)),
                  Avg_Revenue_per_Order = fround 2 (series_mean (map order_value g)),
                  Unique_Customers = length (remdups (map customer_id g)),
                  Revenue_pct = NaN,
                  Order_pct = NaN\<rparr>)
         (group_keys product_category df)"

definition category_analysis :: "order list \<Rightarrow> category_row list" where
  "category_analysis df =
     (let agg = category_agg df;
          revenue_sum = series_sum (map Total_Revenue agg);
          count_sum = series_sum (map (\<lambda>r. real (Order_count r)) agg)
      in sort_key (\<lambda>r. - Total_Revenue r)
           (map (\<lambda>r. r\<lparr>Revenue_pct :=
                           fround 1 (fmul (fdiv (Fin (Total_Revenue r)) revenue_sum) (Fin 100)),
                        Order_pct :=
                           fround 1 (fmul (fdiv (Fin (real (Order_count r))) count_sum) (Fin 100))\<rparr>)
                agg))"

text \<open>The sum of a float column, NaN propagating.\<close>

definition fsum :: "flt list \<Rightarrow> flt" where
  "fsum xs = foldl fadd (Fin 0) xs"

text \<open>
  The percentages of a table sum to 100 within the rounding tolerance: each value was
  rounded to one decimal, so each is off by at most 0.05.
\<close>

definition revenue_pct_sum_ok :: "category_row list \<Rightarrow> bool" where
  "revenue_pct_sum_ok ca =
     (case fsum (map Revenue_pct ca) of
        Fin s \<Rightarrow> \<bar>s - 100\<bar> \<le> real (length ca) * (1 / 20)
      | _ \<Rightarrow> False)"

subsection \<open>Pareto analysis\<close>

fun cumsum_from :: "real \<Rightarrow> real list \<Rightarrow> real list" where
  "cumsum_from acc [] = []"
| "cumsum_from acc (x # xs) = (acc + x) # cumsum_from (acc + x) xs"

definition cumsum_revenue :: "category_row list \<Rightarrow> real list" where
  "cumsum_revenue ca = cumsum_from 0 (map Total_Revenue ca)"

definition cumsum_revenue_pct :: "category_row list \<Rightarrow> flt list" where
  "cumsum_revenue_pct ca =
     map (\<lambda>c. fmul (fdiv (Fin c) (series_sum (map Total_Revenue ca))) (Fin 100))
         (cumsum_revenue ca)"

definition num_categories_80 :: "category_row list \<Rightarrow> nat" where
  "num_categories_80 ca = length (filter (\<lambda>p. fle p (Fin 80)) (cumsum_revenue_pct ca))"

definition num_categories_20 :: "category_row list \<Rightarrow> nat" where
  "num_categories_20 ca = length ca - num_categories_80 ca"

text \<open>
  The number of categories strictly before the position where the cumulative share first
  exceeds 80, as the specification words the cutoff.
\<close>

definition before_first_exceeding :: "flt list \<Rightarrow> nat" where
  "before_first_exceeding ps = length (takeWhile (\<lambda>p. \<not> fgt p (Fin 80)) ps)"

definition nonneg_desc :: "category_row list \<Rightarrow> bool" where
  "nonneg_desc ca =
     (list_all (\<lambda>r. 0 \<le> Total_Revenue r) ca \<and> sorted (rev (map Total_Revenue ca)))"

subsection \<open>Errors and frames with named columns\<close>

datatype error = KeyError string | ValueError string

definition err_bind :: "error + 'a \<Rightarrow> ('a \<Rightarrow> error + 'b) \<Rightarrow> error + 'b" where
  "err_bind r k = (case r of Inl e \<Rightarrow> Inl e | Inr x \<Rightarrow> k x)"

text \<open>
  A table whose columns are looked up by name: the column names, and one row per index
  label holding one value per column. \<^verbatim>\<open>frame[name]\<close> raises KeyError when no column
  has that name.
\<close>

record frame =
  columns :: "string list"
  rows :: "(string \<times> flt list) list"

fun find_col :: "string list \<Rightarrow> string \<Rightarrow> nat option" where
  "find_col [] n = None"
| "find_col (c # cs) n = (if c = n then Some 0 else map_option Suc (find_col cs n))"

definition getcol :: "frame \<Rightarrow> string \<Rightarrow> error + flt list" where
  "getcol fr name =
     (case find_col (columns fr) name of
        None \<Rightarrow> Inl (KeyError name)
      | Some i \<Rightarrow> Inr (map (\<lambda>r. snd r ! i) (rows fr)))"

definition rename_cols :: "(string \<times> string) list \<Rightarrow> frame \<Rightarrow> frame" where
  "rename_cols m fr =
     fr\<lparr>columns := map (\<lambda>c. case map_of m c of Some c' \<Rightarrow> c' | None \<Rightarrow> c) (columns fr)\<rparr>"

text \<open>\<^verbatim>\<open>frame[name] = values\<close>: a new column goes last, an old one is overwritten.\<close>

definition setcol :: "frame \<Rightarrow> string \<Rightarrow> flt list \<Rightarrow> frame" where
  "setcol fr name vs =
     (case find_col (columns fr) name of
        None \<Rightarrow> \<lparr>columns = columns fr @ [name],
                 rows = map2 (\<lambda>r v. (fst r, snd r @ [v])) (rows fr) vs\<rparr>
      | Some i \<Rightarrow> \<lparr>columns = columns fr,
                   rows = map2 (\<lambda>r v. (fst r, (snd r)[i := v])) (rows fr) vs\<rparr>)"

text \<open>Descending order with NaN last; rows with equal keys keep their order.\<close>

definition desc_le :: "flt \<Rightarrow> flt \<Rightarrow> bool" where
  "desc_le a b = (b = NaN \<or> (a \<noteq> NaN \<and> fle b a))"

fun insort_by :: "('a \<Rightarrow> 'a \<Rightarrow> bool) \<Rightarrow> 'a \<Rightarrow> 'a list \<Rightarrow> 'a list" where
  "insort_by le x [] = [x]"
| "insort_by le x (y # ys) = (if le x y then x # y # ys else y # insort_by le x ys)"

definition sort_by :: "('a \<Rightarrow> 'a \<Rightarrow> bool) \<Rightarrow> 'a list \<Rightarrow> 'a list" where
  "sort_by le xs = foldr (insort_by le) xs []"

definition sort_values_desc :: "frame \<Rightarrow> string \<Rightarrow> error + frame" where
  "sort_values_desc fr name =
     (case find_col (columns fr) name of
        None \<Rightarrow> Inl (KeyError name)
      | Some i \<Rightarrow> Inr (fr\<lparr>rows := sort_by (\<lambda>r1 r2. desc_le (snd r1 ! i) (snd r2 ! i)) (rows fr)\<rparr>))"

text \<open>\<^verbatim>\<open>frame.loc[label, name]\<close>.\<close>

definition loc :: "frame \<Rightarrow> string \<Rightarrow> string \<Rightarrow> error + flt" where
  "loc fr label name =
     (case find_col (columns fr) name of
        None \<Rightarrow> Inl (KeyError name)
      | Some i \<Rightarrow> (case map_of (rows fr) label of
                     None \<Rightarrow> Inl (KeyError label)
                   | Some vs \<Rightarrow> Inr (vs ! i)))"

text \<open>\<^verbatim>\<open>idxmax()\<close>: the label of the first largest value, NaN skipped.\<close>

definition idxmax :: "(string \<times> flt) list \<Rightarrow> error + string" where
  "idxmax kvs =
     (case filter (\<lambda>kv. snd kv \<noteq> NaN) kvs of
        [] \<Rightarrow> Inl (ValueError ''attempt to get argmax of an empty sequence'')
      | b # rest \<Rightarrow> Inr (fst (foldl (\<lambda>best kv. if fgt (snd kv) (snd best) then kv else best) b rest)))"

subsection \<open>Return and refund analysis\<close>

text \<open>
  The aggregation both pages start from: per category the number of orders and the number
  of cancelled or returned ones, in columns named after the aggregated columns.
\<close>

definition returns_agg :: "order list \<Rightarrow> frame" where
  "returns_agg df =
     \<lparr>columns = [''order_id'', ''order_status''],
      rows = map (\<lambda>c. let g = group_of product_category df c
                      in (c, [Fin (real (length g)),
                              Fin (real (length (filter (\<lambda>x. order_status x = ''cancelled''
                                                             \<or> order_status x = ''returned'') g)))]))
                 (group_keys product_category df)\<rparr>"

definition rate_pct :: "flt list \<Rightarrow> flt list \<Rightarrow> flt list" where
  "rate_pct xs ys = map2 (\<lambda>a b. fmul (fdiv a b) (Fin 100)) xs ys"

text \<open>
  Product and Category page: the columns are renamed before they are read. The two rate
  columns are float64 quotients after \<^verbatim>\<open>.round(1)\<close>. The quotient is exact here, and
  float64 may round it to the other side of a tie, so what the code stores where the exact
  rate is \<open>x\<close> is a parameter of the model, \<open>round1 x\<close>.
\<close>

fun fround_by :: "(real \<Rightarrow> real) \<Rightarrow> flt \<Rightarrow> flt" where
  "fround_by round1 (Fin x) = Fin (round1 x)"
| "fround_by round1 x = x"

definition return_analysis :: "(real \<Rightarrow> real) \<Rightarrow> order list \<Rightarrow> error + frame" where
  "return_analysis round1 df =
     (let ra = rename_cols [(''order_id'', ''Total_Orders''), (''order_status'', ''Returns_Refunds'')]
                 (returns_agg df)
      in err_bind (getcol ra ''Returns_Refunds'') (\<lambda>rr.
         err_bind (getcol ra ''Total_Orders'') (\<lambda>tot.
         let ra1 = setcol ra ''Return_Rate[%]'' (map (fround_by round1) (rate_pct rr tot))
         in err_bind (getcol ra1 ''Total_Orders'') (\<lambda>tot1.
            err_bind (getcol ra1 ''Returns_Refunds'') (\<lambda>rr1.
            let ra2 = setcol ra1 ''Completed_Orders'' (map2 fsub tot1 rr1)
            in err_bind (getcol ra2 ''Completed_Orders'') (\<lambda>co.
               err_bind (getcol ra2 ''Total_Orders'') (\<lambda>tot2.
               let ra3 = setcol ra2 ''Completion_Rate[%]'' (map (fround_by round1) (rate_pct co tot2))
               in sort_values_desc ra3 ''Return_Rate[%]'')))))))"

text \<open>Recommendations page: the same aggregation, read without the renaming.\<close>

definition recommendations_return_analysis :: "order list \<Rightarrow> error + string \<times> flt" where
  "recommendations_return_analysis df =
     (let ra = returns_agg df
      in err_bind (getcol ra ''Returns_Refunds'') (\<lambda>rr.
         err_bind (getcol ra ''Total_Orders'') (\<lambda>tot.
         let ra1 = setcol ra ''Return_Rate[%]'' (rate_pct rr tot)
         in err_bind (getcol ra1 ''Return_Rate[%]'') (\<lambda>rate.
            err_bind (idxmax (zip (map fst (rows ra1)) rate)) (\<lambda>high_return_cat.
            err_bind (loc ra1 high_return_cat ''Return_Rate[%]'') (\<lambda>high_return_rate.
            Inr (high_return_cat, high_return_rate)))))))"

text \<open>Overall metrics of the Product and Category page.\<close>

definition total_orders :: "order list \<Rightarrow> nat" where
  "total_orders df = length df"

definition total_returns :: "order list \<Rightarrow> nat" where
  "total_returns df =
     length (filter (\<lambda>x. order_status x = ''cancelled'' \<or> order_status x = ''refunded'') df)"

definition overall_return_rate :: "order list \<Rightarrow> flt" where
  "overall_return_rate df =
     fmul (fdiv (Fin (real (total_returns df))) (Fin (real (total_orders df)))) (Fin 100)"

definition total_lost_revenue :: "order list \<Rightarrow> flt" where
  "total_lost_revenue df =
     series_sum (map order_value
       (filter (\<lambda>x. order_status x = ''cancelled'' \<or> order_status x = ''refunded'') df))"

text \<open>The two status sets of the specification, and counting over a set of statuses.\<close>

definition category_return_statuses :: "string set" where
  "category_return_statuses = {''cancelled'', ''returned''}"

definition overall_return_statuses :: "string set" where
  "overall_return_statuses = {''cancelled'', ''refunded''}"

definition with_status :: "string set \<Rightarrow> order list \<Rightarrow> order list" where
  "with_status S df = filter (\<lambda>x. order_status x \<in> S) df"

text \<open>
  Per category: the number of orders, and the number of orders whose status is in the
  per-category set; \<open>ra_row\<close> is the row the page computes for a category.
\<close>

definition category_orders :: "order list \<Rightarrow> string \<Rightarrow> real" where
  "category_orders df c = real (length (group_of product_category df c))"

definition category_returns :: "order list \<Rightarrow> string \<Rightarrow> real" where
  "category_returns df c =
     real (length (with_status category_return_statuses (group_of product_category df c)))"

definition ra_row :: "(real \<Rightarrow> real) \<Rightarrow> order list \<Rightarrow> string \<Rightarrow> string \<times> flt list" where
  "ra_row round1 df c =
     (let n = real (length (group_of product_category df c));
          k = real (length (with_status category_return_statuses (group_of product_category df c)))
      in (c, [Fin n, Fin k, fround_by round1 (fmul (fdiv (Fin k) (Fin n)) (Fin 100)), Fin (n - k),
              fround_by round1 (fmul (fdiv (Fin (n - k)) (Fin n)) (Fin 100))]))"

text \<open>
  Rounding to one decimal keeps a value within half a unit of that decimal; the allowance
  of \<open>10\<^sup>-\<^sup>9\<close> covers the float64 error of the quotient and of the stored decimal.
\<close>

definition rate_tolerance :: real where
  "rate_tolerance = 1 / 20 + 1 / 10 ^ 9"

definition one_decimal :: "(real \<Rightarrow> real) \<Rightarrow> bool" where
  "one_decimal round1 = (\<forall>x. \<bar>round1 x - x\<bar> \<le> rate_tolerance)"

subsection \<open>RFM segment rules (Customer Segmentation page)\<close>

text \<open>
  \<^verbatim>\<open>segment_customer(row)\<close>: the if/elif chain over the three scores, in the order of
  the source.
\<close>

definition segment_customer :: "int \<Rightarrow> int \<Rightarrow> int \<Rightarrow> string" where
  "segment_customer r f m =
     (if r \<ge> 4 \<and> f \<ge> 4 \<and> m \<ge> 4 then ''Champions''
      else if r \<ge> 3 \<and> f \<ge> 4 \<and> m \<ge> 4 then ''Loyal Customers''
      else if r \<ge> 4 \<and> f \<ge> 3 \<and> m \<ge> 4 then ''Potential Loyalists''
      else if f \<ge> 3 \<and> m \<ge> 3 \<and> r \<le> 2 then ''At Risk''
      else if r \<ge> 4 \<and> (f \<le> 2 \<or> m \<le> 2) then ''Need Attention''
      else if r \<ge> 3 \<and> (f \<ge> 3 \<or> m \<ge> 3) then ''Promising''
      else if r \<le> 2 \<and> f \<le> 2 then ''Lost''
      else ''Other'')"

text \<open>
  The rule table as the specification words it: an ordered list of (predicate, label)
  pairs, evaluated top-down, the first match winning, with a default label.
\<close>

type_synonym rule = "(int \<Rightarrow> int \<Rightarrow> int \<Rightarrow> bool) \<times> string"

definition spec_rules :: "rule list" where
  "spec_rules =
     [(\<lambda>r f m. r \<ge> 4 \<and> f \<ge> 4 \<and> m \<ge> 4, ''Champions''),
      (\<lambda>r f m. r \<ge> 3 \<and> f \<ge> 4 \<and> m \<ge> 4, ''Loyal Customers''),
      (\<lambda>r f m. r \<ge> 4 \<and> f \<ge> 3 \<and> m \<ge> 4, ''Potential Loyalists''),
      (\<lambda>r f m. f \<ge> 3 \<and> m \<ge> 3 \<and> r \<le> 2, ''At Risk''),
      (\<lambda>r f m. r \<ge> 4 \<and> (f \<le> 2 \<or> m \<le> 2), ''Need Attention''),
      (\<lambda>r f m. r \<ge> 3 \<and> (f \<ge> 3 \<or> m \<ge> 3), ''Promising''),
      (\<lambda>r f m. r \<le> 2 \<and> f \<le> 2, ''Lost'')]"

fun first_match :: "rule list \<Rightarrow> string \<Rightarrow> int \<Rightarrow> int \<Rightarrow> int \<Rightarrow> string" where
  "first_match [] dflt r f m = dflt"
| "first_match ((p, l) # rs) dflt r f m = (if p r f m then l else first_match rs dflt r f m)"

definition segment_labels :: "string list" where
  "segment_labels =
     [''Champions'', ''Loyal Customers'', ''Potential Loyalists'', ''At Risk'',
      ''Need Attention'', ''Promising'', ''Lost'', ''Other'']"

definition score_ok :: "int \<Rightarrow> bool" where
  "score_ok s = (1 \<le> s \<and> s \<le> 5)"

subsection \<open>RFM table and quintile scores (Customer Segmentation page)\<close>

definition day_ns :: int where
  "day_ns = 86400000000000"

definition series_max :: "int list \<Rightarrow> int option" where
  "series_max xs = (case xs of [] \<Rightarrow> None | x # r \<Rightarrow> Some (fold max r x))"

text \<open>\<^verbatim>\<open>df["order_date"].max() + pd.Timedelta(days=1)\<close>; no date on an empty table.\<close>

definition reference_date :: "order list \<Rightarrow> int option" where
  "reference_date df = map_option (\<lambda>m. m + day_ns) (series_max (map order_date df))"

record rfm_row =
  Customer :: nat
  Recency :: int
  Frequency :: nat
  Monetary :: real

text \<open>
  \<^verbatim>\<open>(reference_date - x.max()).days\<close> is the number of whole days, rounded down. A
  group of \<^verbatim>\<open>groupby\<close> has a row, so its maximum exists.
\<close>

definition rfm_base :: "order list \<Rightarrow> rfm_row list" where
  "rfm_base df =
     (case reference_date df of
        None \<Rightarrow> []
      | Some ref \<Rightarrow>
          map (\<lambda>c. let g = group_of customer_id df c
                   in \<lparr>Customer = c,
                       Recency = (case series_max (map order_date g) of
                                    Some m \<Rightarrow> (ref - m) div day_ns
                                  | None \<Rightarrow> 0),
                       Frequency = length g,
                       Monetary = sum_list (map order_value g)\<rparr>)
              (group_keys customer_id df))"

text \<open>
  The six edges of \<^verbatim>\<open>qcut(x, q=5)\<close> are the quantiles of the series at
  \<^verbatim>\<open>np.linspace(0, 1, 6)\<close>, which pandas computes in float64 by linear interpolation.
  Whether two neighbouring edges coincide can depend on the last bit of these numbers, so
  the edges are a parameter of the model: \<open>edges xs\<close> stands for the six edges pandas
  computes on the non-empty series \<open>xs\<close>.
\<close>

type_synonym edge_fn = "real list \<Rightarrow> real list"

text \<open>
  Interpolating between two equal values gives that value, in float64 as well: the edges
  of a series whose values are all \<open>v\<close> are all \<open>v\<close>.
\<close>

definition constant_edges :: "edge_fn \<Rightarrow> bool" where
  "constant_edges edges = (\<forall>xs v. set xs \<subseteq> {v} \<longrightarrow> set (edges xs) \<subseteq> {v})"

text \<open>
  \<^verbatim>\<open>bins.searchsorted(x, side="left")\<close> on ascending edges, then
  \<^verbatim>\<open>ids[x == bins[0]] = 1\<close>.
\<close>

definition cut_id :: "real list \<Rightarrow> real \<Rightarrow> nat" where
  "cut_id bins x =
     (case bins of
        [] \<Rightarrow> 0
      | b0 # _ \<Rightarrow> if x = b0 then 1 else length (filter (\<lambda>b. b < x) bins))"

definition cut_ids :: "real list \<Rightarrow> real list \<Rightarrow> nat list" where
  "cut_ids bins xs = map (cut_id bins) xs"

definition bin_labels_msg :: string where
  "bin_labels_msg = ''Bin labels must be one fewer than the number of bin edges''"

text \<open>
  \<^verbatim>\<open>pd.qcut(x, q=5, labels=labels, duplicates="drop")\<close>: repeated edges are dropped,
  the labels must then be one fewer than the edges that are left, and a value outside
  every bin gets no label. On an empty series every edge of pandas is NaN and they collapse
  into one edge, which leaves no bin: there is no finite edge.
\<close>

definition qcut :: "edge_fn \<Rightarrow> real list \<Rightarrow> int list \<Rightarrow> error + int option list" where
  "qcut edges_of xs labels =
     (let edges = (if xs = [] then [] else edges_of xs);
          u = remdups edges;
          bins = (if length u < length edges \<and> length edges \<noteq> 2 then u else edges);
          ids = cut_ids bins xs
      in if length labels \<noteq> length bins - 1 then Inl (ValueError bin_labels_msg)
         else Inr (map (\<lambda>i. if i = 0 \<or> i = length bins then None
                             else Some (labels ! (i - 1))) ids))"

text \<open>\<^verbatim>\<open>.astype(int)\<close> raises on a missing value.\<close>

fun astype_int :: "int option list \<Rightarrow> error + int list" where
  "astype_int [] = Inr []"
| "astype_int (None # xs) = Inl (ValueError ''Cannot convert float NaN to integer'')"
| "astype_int (Some v # xs) = (case astype_int xs of Inl e \<Rightarrow> Inl e | Inr vs \<Rightarrow> Inr (v # vs))"

text \<open>\<^verbatim>\<open>rank(method="first")\<close>: ranks 1..n, equal values ranked in order of appearance.\<close>

definition rank_first :: "real list \<Rightarrow> real list" where
  "rank_first xs =
     map (\<lambda>i. real (1 + length (filter (\<lambda>y. y < xs ! i) xs)
                      + length (filter (\<lambda>y. y = xs ! i) (take i xs))))
         [0..<length xs]"

record rfm_scored = rfm_row +
  R_score :: int
  F_score :: int
  M_score :: int
  Segment :: string

definition score_rows :: "rfm_row list \<Rightarrow> int list \<Rightarrow> int list \<Rightarrow> int list \<Rightarrow> rfm_scored list" where
  "score_rows rfm rs fs ms =
     map (\<lambda>(x, r, f, m).
            \<lparr>Customer = Customer x, Recency = Recency x, Frequency = Frequency x,
             Monetary = Monetary x, R_score = r, F_score = f, M_score = m,
             Segment = segment_customer r f m\<rparr>)
         (zip rfm (zip rs (zip fs ms)))"

text \<open>
  The table with its scores and segments (the concatenated \<^verbatim>\<open>RFM_Score\<close> string is
  left out). An error of a \<^verbatim>\<open>qcut\<close> ends the computation.
\<close>

definition rfm_table :: "edge_fn \<Rightarrow> order list \<Rightarrow> error + rfm_scored list" where
  "rfm_table edges df =
     (let rfm = rfm_base df
      in err_bind (err_bind (qcut edges (map (\<lambda>x. real_of_int (Recency x)) rfm) [5, 4, 3, 2, 1])
                     astype_int) (\<lambda>rs.
         err_bind (err_bind (qcut edges (rank_first (map (\<lambda>x. real (Frequency x)) rfm))
                               [1, 2, 3, 4, 5]) astype_int) (\<lambda>fs.
         err_bind (err_bind (qcut edges (rank_first (map Monetary rfm)) [1, 2, 3, 4, 5])
                     astype_int) (\<lambda>ms.
         Inr (score_rows rfm rs fs ms)))))"

subsection \<open>Example tables\<close>

definition mk_order :: "nat \<Rightarrow> nat \<Rightarrow> int \<Rightarrow> real \<Rightarrow> real \<Rightarrow> string \<Rightarrow> string \<Rightarrow> order" where
  "mk_order i c d v disc cat st =
     \<lparr>order_id = i, customer_id = c, order_date = d * day_ns, order_value = v,
      discount_applied = disc, product_category = cat, order_status = st\<rparr>"

definition ex_spec_orders :: "order list" where
  "ex_spec_orders =
     [mk_order 1 1 10 100 0 ''X'' ''completed'', mk_order 2 2 11 50 5 ''X'' ''returned'']"

definition ex_undiscounted :: "order list" where
  "ex_undiscounted =
     [mk_order 1 1 10 100 0 ''X'' ''completed'', mk_order 2 2 11 50 0 ''Y'' ''returned'']"


definition ex_zero_revenue :: "order list" where
  "ex_zero_revenue = [mk_order 1 1 10 0 0 ''X'' ''completed'']"

definition ex_categories :: "order list" where
  "ex_categories =
     [mk_order 1 1 10 100 0 ''X'' ''completed'', mk_order 2 2 11 50 0 ''Y'' ''returned'',
      mk_order 3 2 12 250 0 ''Z'' ''completed'']"

definition ex_returns :: "order list" where
  "ex_returns =
     [mk_order 1 1 10 100 0 ''X'' ''completed'', mk_order 2 2 11 50 0 ''X'' ''returned'',
      mk_order 3 3 12 30 0 ''X'' ''refunded'']"

definition ex_same_day :: "order list" where
  "ex_same_day =
     [mk_order 1 1 10 20 0 ''X'' ''completed'', mk_order 2 2 10 35 0 ''X'' ''completed'',
      mk_order 3 3 10 50 0 ''Y'' ''completed'', mk_order 4 4 10 15 0 ''Y'' ''completed'',
      mk_order 5 5 10 80 0 ''Z'' ''completed'']"

definition ex_two_days :: "order list" where
  "ex_two_days =
     [mk_order 1 1 10 5 0 ''X'' ''completed'', mk_order 2 2 11 7 0 ''X'' ''completed'']"

text \<open>
  An edge function for the examples: the quantiles at 0, 1/5, ..., 1 by linear
  interpolation in exact arithmetic. On the example tables they are the edges pandas
  computes, up to the float64 representation of the decimals.
\<close>

definition exact_quantile :: "real list \<Rightarrow> real \<Rightarrow> real" where
  "exact_quantile xs q =
     (let s = sort xs;
          h = q * (real (length s) - 1);
          lo = nat \<lfloor>h\<rfloor>;
          hi = min (lo + 1) (length s - 1)
      in s ! lo + (h - real lo) * (s ! hi - s ! lo))"

definition exact_edges :: edge_fn where
  "exact_edges xs =
     (if xs = [] then [] else map (exact_quantile xs) [0, 1 / 5, 2 / 5, 3 / 5, 4 / 5, 1])"

section \<open>Theorems\<close>

subsection \<open>Arithmetic of the floating-point values\<close>

lemma fadd_NaN_right [simp]: "fadd x NaN = NaN"
  by (cases x) simp_all

lemma fmul_NaN_right [simp]: "fmul x NaN = NaN"
  by (cases x) simp_all

lemma fdiv_NaN_right [simp]: "fdiv x NaN = NaN"
  by (cases x) simp_all

lemma fsub_NaN_right [simp]: "fsub x NaN = NaN"
  by (simp add: fsub_def)


text \<open>
  C1. For scores r, f, m each in 1..5 the label computed by \<open>segment_customer\<close> is the
  one the ordered rule list of the specification gives when it is evaluated top-down with
  the first match winning and \<open>Other\<close> as the default, and it is one of the eight
  labels.
\<close>

theorem segment_customer_first_match:
  assumes "score_ok r" and "score_ok f" and "score_ok m"
  shows "segment_customer r f m = first_match spec_rules ''Other'' r f m
         \<and> segment_customer r f m \<in> set segment_labels"
  by (simp add: segment_customer_def spec_rules_def segment_labels_def)

theorem segment_customer_first_match_witness:
  "score_ok 4 \<and> score_ok 2 \<and> score_ok 5
   \<and> segment_customer 4 2 5 = first_match spec_rules ''Other'' 4 2 5
   \<and> segment_customer 4 2 5 \<in> set segment_labels
   \<and> segment_customer 4 2 5 = ''Need Attention''"
proof -
  have s: "score_ok 4" "score_ok 2" "score_ok 5"
    by (simp_all add: score_ok_def)
  have v: "segment_customer 4 2 5 = ''Need Attention''"
    by (simp add: segment_customer_def)
  have t: "segment_customer 4 2 5 = first_match spec_rules ''Other'' 4 2 5
           \<and> segment_customer 4 2 5 \<in> set segment_labels"
    by (rule segment_customer_first_match [OF s])
  from s v t show ?thesis
    by blast
qed

subsection \<open>Revenue volatility\<close>








subsection \<open>Discount impact\<close>

lemma undiscounted_filter: "all_undiscounted df \<Longrightarrow> filter (\<lambda>x. discount_applied x > 0) df = []"
  by (induction df) (simp_all add: all_undiscounted_def)

text \<open>
  C4, as amended. When every order has \<open>discount_applied = 0\<close>, the revenue of the
  discounted orders is the number 0 (the sum of an empty selection), their mean order value
  is NaN, and the percentage difference is NaN, so that the remark on it is not shown.
\<close>

theorem undiscounted_aggregates:
  assumes "all_undiscounted df"
  shows "with_discount_revenue df = Fin 0 \<and> with_discount_avg df = NaN
         \<and> percentage_diff df = NaN \<and> \<not> discount_info_shown df"
  using undiscounted_filter [OF assms]
  by (simp add: with_discount_revenue_def with_discount_avg_def percentage_diff_def
      discount_info_shown_def series_sum_def series_mean_def)

lemma ex_undiscounted_all: "all_undiscounted ex_undiscounted"
  by (simp add: all_undiscounted_def ex_undiscounted_def mk_order_def)

theorem undiscounted_aggregates_witness:
  "all_undiscounted ex_undiscounted \<and> with_discount_revenue ex_undiscounted = Fin 0
   \<and> with_discount_avg ex_undiscounted = NaN \<and> percentage_diff ex_undiscounted = NaN
   \<and> \<not> discount_info_shown ex_undiscounted"
  using undiscounted_aggregates [OF ex_undiscounted_all] ex_undiscounted_all by simp

text \<open>
  C4 as stated fails: on a table without discounts the revenue of the discounted
  orders is zero, not undefined.
\<close>

theorem undiscounted_revenue_is_zero:
  "all_undiscounted ex_undiscounted \<and> with_discount_revenue ex_undiscounted = Fin 0
   \<and> with_discount_revenue ex_undiscounted \<noteq> NaN"
  by (simp add: all_undiscounted_def ex_undiscounted_def mk_order_def with_discount_revenue_def
      series_sum_def)

subsection \<open>Return rates on the Recommendations page\<close>

text \<open>
  C9. On every order table the Recommendations page reads the column
  \<open>Returns_Refunds\<close> from an aggregation whose columns are still named \<open>order_id\<close> and
  \<open>order_status\<close>: the lookup raises KeyError (as the one of \<open>Total_Orders\<close> would),
  and no category with the highest return rate is ever computed.
\<close>

theorem recommendations_key_error:
  "recommendations_return_analysis df = Inl (KeyError ''Returns_Refunds'')
   \<and> columns (returns_agg df) = [''order_id'', ''order_status'']
   \<and> getcol (returns_agg df) ''Returns_Refunds'' = Inl (KeyError ''Returns_Refunds'')
   \<and> getcol (returns_agg df) ''Total_Orders'' = Inl (KeyError ''Total_Orders'')"
  by (simp add: recommendations_return_analysis_def returns_agg_def getcol_def err_bind_def)

theorem recommendations_key_error_witness:
  "recommendations_return_analysis ex_spec_orders = Inl (KeyError ''Returns_Refunds'')"
  using recommendations_key_error [of ex_spec_orders] by simp


subsection \<open>Pareto cutoff\<close>

lemma cumsum_from_sorted:
  "\<forall>x\<in>set xs. 0 \<le> x \<Longrightarrow>
     sorted (cumsum_from acc xs) \<and> (\<forall>c\<in>set (cumsum_from acc xs). acc \<le> c)"
proof (induction xs arbitrary: acc)
  case Nil
  then show ?case by simp
next
  case (Cons x xs)
  then have ih: "sorted (cumsum_from (acc + x) xs)"
    "\<forall>c\<in>set (cumsum_from (acc + x) xs). acc + x \<le> c"
    by simp_all
  from Cons.prems have "0 \<le> x" by simp
  with ih show ?case by fastforce
qed

lemma length_cumsum_from [simp]: "length (cumsum_from acc xs) = length xs"
  by (induction xs arbitrary: acc) simp_all

lemma filter_eq_takeWhile_sorted:
  fixes xs :: "real list"
  assumes "sorted xs" and "\<And>a b. a \<le> b \<Longrightarrow> P b \<Longrightarrow> P a"
  shows "filter P xs = takeWhile P xs"
  using assms(1)
proof (induction xs)
  case Nil
  then show ?case by simp
next
  case (Cons x xs)
  show ?case
  proof (cases "P x")
    case True
    with Cons show ?thesis by simp
  next
    case False
    have "\<not> P y" if "y \<in> set xs" for y
      using Cons.prems that assms(2) [of x y] False by auto
    then have "filter P xs = []"
      by (simp add: filter_empty_conv)
    with False show ?thesis by simp
  qed
qed

lemma cumsum_revenue_pct_fin:
  assumes "sum_list (map Total_Revenue ca) \<noteq> 0"
  shows "cumsum_revenue_pct ca =
           map (\<lambda>c. Fin (c / sum_list (map Total_Revenue ca) * 100)) (cumsum_revenue ca)"
  using assms by (simp add: cumsum_revenue_pct_def series_sum_def)

lemma length_cumsum_revenue_pct [simp]: "length (cumsum_revenue_pct ca) = length ca"
  by (simp add: cumsum_revenue_pct_def cumsum_revenue_def)

text \<open>
  C3, as amended. For a non-empty category table with non-negative revenues in
  descending order whose total revenue is positive, the size of the 80% set is the number
  of categories whose cumulative share is at most 80, which is the number of categories
  before the first one whose cumulative share exceeds 80; the share at the last category of
  the set is at most 80, and the share at the next category, if there is one, exceeds 80.
\<close>

theorem pareto_cutoff:
  assumes "ca \<noteq> []" and "nonneg_desc ca" and "0 < sum_list (map Total_Revenue ca)"
  shows "num_categories_80 ca = card {i. i < length ca \<and> fle (cumsum_revenue_pct ca ! i) (Fin 80)}
       \<and> num_categories_80 ca = before_first_exceeding (cumsum_revenue_pct ca)
       \<and> (0 < num_categories_80 ca \<longrightarrow>
            fle (cumsum_revenue_pct ca ! (num_categories_80 ca - 1)) (Fin 80))
       \<and> (num_categories_80 ca < length ca \<longrightarrow>
            fgt (cumsum_revenue_pct ca ! num_categories_80 ca) (Fin 80))"
proof -
  define T where "T = sum_list (map Total_Revenue ca)"
  define cs where "cs = cumsum_revenue ca"
  define P where "P = (\<lambda>c::real. c / T * 100 \<le> 80)"
  have T: "0 < T" using assms(3) by (simp add: T_def)
  have pcts: "cumsum_revenue_pct ca = map (\<lambda>c. Fin (c / T * 100)) cs"
    using T by (simp add: cumsum_revenue_pct_fin T_def cs_def)
  have len: "length cs = length ca"
    by (simp add: cs_def cumsum_revenue_def)
  have "\<forall>x\<in>set (map Total_Revenue ca). 0 \<le> x"
    using assms(2) by (auto simp: nonneg_desc_def list_all_iff)
  then have sorted: "sorted cs"
    unfolding cs_def cumsum_revenue_def by (rule cumsum_from_sorted [THEN conjunct1])
  have down: "P a" if "a \<le> b" "P b" for a b
  proof -
    have "a / T * 100 \<le> b / T * 100"
      using that(1) T by (simp add: divide_right_mono)
    with that(2) show ?thesis by (simp add: P_def)
  qed
  have ft: "filter P cs = takeWhile P cs"
    using sorted down by (rule filter_eq_takeWhile_sorted)
  have n80: "num_categories_80 ca = length (filter P cs)"
    by (simp add: num_categories_80_def pcts filter_map o_def P_def)
  have bfe: "before_first_exceeding (cumsum_revenue_pct ca) = length (takeWhile P cs)"
    by (simp add: before_first_exceeding_def pcts takeWhile_map o_def P_def not_less)
  have n: "num_categories_80 ca = length (takeWhile P cs)"
    by (simp add: n80 ft)
  have card: "num_categories_80 ca
                = card {i. i < length ca \<and> fle (cumsum_revenue_pct ca ! i) (Fin 80)}"
    unfolding num_categories_80_def length_filter_conv_card by simp
  have low: "fle (cumsum_revenue_pct ca ! (num_categories_80 ca - 1)) (Fin 80)"
    if pos: "0 < num_categories_80 ca"
  proof -
    let ?k = "num_categories_80 ca - 1"
    have k: "?k < length (takeWhile P cs)" using pos n by simp
    then have "takeWhile P cs ! ?k \<in> set (takeWhile P cs)" by (rule nth_mem)
    then have "P (takeWhile P cs ! ?k)" by (auto dest: set_takeWhileD)
    then have "P (cs ! ?k)" using k by (simp add: takeWhile_nth)
    moreover have "?k < length cs"
      using k length_takeWhile_le [of P cs] by simp
    ultimately show ?thesis by (simp add: pcts P_def)
  qed
  have high: "fgt (cumsum_revenue_pct ca ! num_categories_80 ca) (Fin 80)"
    if lt: "num_categories_80 ca < length ca"
  proof -
    have "length (takeWhile P cs) < length cs" using lt n len by simp
    then have "\<not> P (cs ! length (takeWhile P cs))" by (rule nth_length_takeWhile)
    then show ?thesis using lt len by (simp add: pcts n P_def not_le)
  qed
  from card n bfe low high show ?thesis by simp
qed

lemma ex_categories_analysis:
  "category_analysis ex_categories =
     [\<lparr>category = ''Z'', Order_count = 1, Total_Revenue = 250, Avg_Revenue_per_Order = Fin 250,
       Unique_Customers = 1, Revenue_pct = Fin (125 / 2), Order_pct = Fin (333 / 10)\<rparr>,
      \<lparr>category = ''X'', Order_count = 1, Total_Revenue = 100, Avg_Revenue_per_Order = Fin 100,
       Unique_Customers = 1, Revenue_pct = Fin 25, Order_pct = Fin (333 / 10)\<rparr>,
      \<lparr>category = ''Y'', Order_count = 1, Total_Revenue = 50, Avg_Revenue_per_Order = Fin 50,
       Unique_Customers = 1, Revenue_pct = Fin (25 / 2), Order_pct = Fin (333 / 10)\<rparr>]"
  by (simp add: category_analysis_def category_agg_def group_keys_def group_of_def ex_categories_def
      mk_order_def series_sum_def series_mean_def round_dec_def rint_def Let_def)


lemma ex_categories_pct:
  "cumsum_revenue_pct (category_analysis ex_categories) = [Fin (125 / 2), Fin (175 / 2), Fin 100]"
  by (simp add: ex_categories_analysis cumsum_revenue_pct_def cumsum_revenue_def series_sum_def)

theorem pareto_cutoff_witness:
  "category_analysis ex_categories \<noteq> []
   \<and> nonneg_desc (category_analysis ex_categories)
   \<and> 0 < sum_list (map Total_Revenue (category_analysis ex_categories))
   \<and> num_categories_80 (category_analysis ex_categories) = 1
   \<and> before_first_exceeding (cumsum_revenue_pct (category_analysis ex_categories)) = 1
   \<and> fle (cumsum_revenue_pct (category_analysis ex_categories) ! 0) (Fin 80)
   \<and> fgt (cumsum_revenue_pct (category_analysis ex_categories) ! 1) (Fin 80)"
proof -
  have a: "category_analysis ex_categories \<noteq> []"
    by (simp add: ex_categories_analysis)
  have b: "nonneg_desc (category_analysis ex_categories)"
    by (simp add: ex_categories_analysis nonneg_desc_def)
  have c: "0 < sum_list (map Total_Revenue (category_analysis ex_categories))"
    by (simp add: ex_categories_analysis)
  have n: "num_categories_80 (category_analysis ex_categories) = 1"
    by (simp add: num_categories_80_def ex_categories_pct)
  have l: "length (category_analysis ex_categories) = 3"
    by (simp add: ex_categories_analysis)
  note t = pareto_cutoff [OF a b c]
  note t2 = t [THEN conjunct2, THEN conjunct1]
  note t3 = t [THEN conjunct2, THEN conjunct2, THEN conjunct1]
  note t4 = t [THEN conjunct2, THEN conjunct2, THEN conjunct2]
  from t2 t3 t4 a b c n l show ?thesis
    by simp
qed

lemma ex_zero_revenue_analysis:
  "category_analysis ex_zero_revenue =
     [\<lparr>category = ''X'', Order_count = 1, Total_Revenue = 0, Avg_Revenue_per_Order = Fin 0,
       Unique_Customers = 1, Revenue_pct = NaN, Order_pct = Fin 100\<rparr>]"
  by (simp add: category_analysis_def category_agg_def group_keys_def group_of_def
      ex_zero_revenue_def mk_order_def series_sum_def series_mean_def round_dec_def rint_def
      sgn_inf_def Let_def)

text \<open>
  C3 as stated fails when every revenue is zero: the shares are NaN, the 80% set is
  empty although no share exceeds 80, and the next category does not push the share
  over 80.
\<close>

theorem pareto_cutoff_zero_total:
  "category_analysis ex_zero_revenue \<noteq> []
   \<and> nonneg_desc (category_analysis ex_zero_revenue)
   \<and> num_categories_80 (category_analysis ex_zero_revenue) = 0
   \<and> before_first_exceeding (cumsum_revenue_pct (category_analysis ex_zero_revenue)) = 1
   \<and> num_categories_80 (category_analysis ex_zero_revenue)
       < length (category_analysis ex_zero_revenue)
   \<and> \<not> fgt (cumsum_revenue_pct (category_analysis ex_zero_revenue)
               ! num_categories_80 (category_analysis ex_zero_revenue)) (Fin 80)"
  by (simp add: ex_zero_revenue_analysis nonneg_desc_def num_categories_80_def
      before_first_exceeding_def cumsum_revenue_pct_def cumsum_revenue_def series_sum_def
      sgn_inf_def)

subsection \<open>Revenue shares and order counts per category\<close>

lemma fsum_Fin: "foldl fadd (Fin a) (map Fin ps) = Fin (a + sum_list ps)"
  by (induction ps arbitrary: a) (simp_all add: add.assoc)

lemma sum_list_insort_key:
  fixes f :: "'a \<Rightarrow> 'b::comm_monoid_add"
  shows "sum_list (map f (insort_key k x xs)) = f x + sum_list (map f xs)"
  by (induction xs) (simp_all add: add.left_commute)

lemma sum_list_sort_key:
  fixes f :: "'a \<Rightarrow> 'b::comm_monoid_add"
  shows "sum_list (map f (sort_key k xs)) = sum_list (map f xs)"
  by (induction xs) (simp_all add: sum_list_insort_key)

lemma rint_close: "\<bar>of_int (rint y) - y\<bar> \<le> 1 / 2"
proof -
  have "of_int \<lfloor>y\<rfloor> \<le> y" "y < of_int \<lfloor>y\<rfloor> + 1"
    by linarith+
  then show ?thesis
    by (auto simp: rint_def Let_def)
qed

lemma round_dec_close: "\<bar>round_dec 1 x - x\<bar> \<le> 1 / 20"
proof -
  have "\<bar>of_int (rint (x * 10)) - x * 10\<bar> \<le> 1 / 2"
    by (rule rint_close)
  then show ?thesis
    by (simp add: round_dec_def abs_le_iff field_simps)
qed

lemma sum_list_abs_bound:
  fixes f g :: "'a \<Rightarrow> real"
  assumes "\<forall>x\<in>set xs. \<bar>f x - g x\<bar> \<le> e"
  shows "\<bar>sum_list (map f xs) - sum_list (map g xs)\<bar> \<le> real (length xs) * e"
  using assms
proof (induction xs)
  case Nil
  then show ?case by simp
next
  case (Cons x xs)
  then have "\<bar>f x - g x\<bar> \<le> e"
    and "\<bar>sum_list (map f xs) - sum_list (map g xs)\<bar> \<le> real (length xs) * e"
    by simp_all
  then show ?case
    by (simp add: algebra_simps abs_le_iff)
qed

lemma sum_list_share:
  fixes f :: "'a \<Rightarrow> real"
  shows "sum_list (map (\<lambda>r. f r / T * 100) xs) = sum_list (map f xs) / T * 100"
  by (induction xs) (simp_all add: add_divide_distrib distrib_right)

lemma sum_list_indicator:
  "distinct ks \<Longrightarrow> a \<in> set ks \<Longrightarrow> sum_list (map (\<lambda>c. if a = c then 1 else 0) ks) = (1::nat)"
  by (induction ks) auto

lemma group_sizes_sum:
  assumes "distinct ks" and "key ` set df \<subseteq> set ks"
  shows "sum_list (map (\<lambda>c. length (group_of key df c)) ks) = length df"
  using assms(2)
proof (induction df)
  case Nil
  then show ?case by (simp add: group_of_def)
next
  case (Cons x df)
  have "sum_list (map (\<lambda>c. length (group_of key (x # df) c)) ks)
        = sum_list (map (\<lambda>c. (if key x = c then 1 else 0) + length (group_of key df c)) ks)"
    by (rule arg_cong [where f = sum_list]) (simp add: group_of_def)
  also have "\<dots> = sum_list (map (\<lambda>c. if key x = c then 1 else 0) ks)
                  + sum_list (map (\<lambda>c. length (group_of key df c)) ks)"
    by (simp add: sum_list_addf)
  also have "\<dots> = 1 + length df"
    using Cons assms(1) by (simp add: sum_list_indicator)
  finally show ?case by simp
qed

lemma group_keys_set [simp]: "set (group_keys key df) = key ` set df"
  by (simp add: group_keys_def)

lemma group_keys_distinct [simp]: "distinct (group_keys key df)"
  by (simp add: group_keys_def)


lemma category_agg_counts: "sum_list (map Order_count (category_agg df)) = length df"
proof -
  have "sum_list (map Order_count (category_agg df))
        = sum_list (map (\<lambda>c. length (group_of product_category df c))
            (group_keys product_category df))"
    by (simp add: category_agg_def o_def Let_def)
  also have "\<dots> = length df"
    by (rule group_sizes_sum) simp_all
  finally show ?thesis .
qed

text \<open>
  C7, as amended. For a non-empty order table the order counts of the categories sum to
  the number of orders, and when the total revenue over the categories is not zero the
  \<open>Revenue[%]\<close> values sum to 100 up to 0.05 per category (each was rounded to one
  decimal).
\<close>

theorem category_shares_and_counts:
  assumes "df \<noteq> []"
  shows "(sum_list (map Total_Revenue (category_agg df)) \<noteq> 0 \<longrightarrow>
            revenue_pct_sum_ok (category_analysis df))
       \<and> sum_list (map Order_count (category_analysis df)) = length df"
proof -
  define agg where "agg = category_agg df"
  define T where "T = sum_list (map Total_Revenue agg)"
  define g where "g = (\<lambda>r::category_row. round_dec 1 (Total_Revenue r / T * 100))"
  define upd where "upd = (\<lambda>r::category_row.
      r\<lparr>Revenue_pct := fround 1 (fmul (fdiv (Fin (Total_Revenue r)) (Fin T)) (Fin 100)),
        Order_pct := fround 1 (fmul (fdiv (Fin (real (Order_count r)))
          (series_sum (map (\<lambda>r. real (Order_count r)) agg))) (Fin 100))\<rparr>)"
  have ca: "category_analysis df = sort_key (\<lambda>r. - Total_Revenue r) (map upd agg)"
    by (simp add: category_analysis_def Let_def agg_def upd_def T_def series_sum_def)
  have ok: "revenue_pct_sum_ok (category_analysis df)" if T: "T \<noteq> 0"
  proof -
    have pct: "Revenue_pct (upd r) = Fin (g (upd r))" for r
      using T by (simp add: upd_def g_def)
    have m: "map Revenue_pct (category_analysis df) = map Fin (map g (category_analysis df))"
      unfolding ca by (auto simp: pct)
    have "fsum (map Revenue_pct (category_analysis df))
          = Fin (0 + sum_list (map g (category_analysis df)))"
      unfolding fsum_def m by (rule fsum_Fin)
    also have "sum_list (map g (category_analysis df)) = sum_list (map g (map upd agg))"
      unfolding ca by (rule sum_list_sort_key)
    also have "\<dots> = sum_list (map g agg)"
      by (simp add: o_def g_def upd_def)
    finally have fs: "fsum (map Revenue_pct (category_analysis df)) = Fin (sum_list (map g agg))"
      by simp
    have "\<bar>sum_list (map g agg) - sum_list (map (\<lambda>r. Total_Revenue r / T * 100) agg)\<bar>
            \<le> real (length agg) * (1 / 20)"
    proof (rule sum_list_abs_bound, intro ballI)
      fix r
      show "\<bar>g r - Total_Revenue r / T * 100\<bar> \<le> 1 / 20"
        unfolding g_def by (rule round_dec_close)
    qed
    moreover have "sum_list (map (\<lambda>r. Total_Revenue r / T * 100) agg) = 100"
    proof -
      have "sum_list (map (\<lambda>r. Total_Revenue r / T * 100) agg)
            = sum_list (map Total_Revenue agg) / T * 100"
        by (rule sum_list_share)
      also have "\<dots> = 100"
        using T by (simp add: T_def)
      finally show ?thesis .
    qed
    moreover have "length (category_analysis df) = length agg"
      by (simp add: ca)
    ultimately show ?thesis
      by (simp add: revenue_pct_sum_ok_def fs)
  qed
  have "sum_list (map Order_count (category_analysis df))
        = sum_list (map Order_count (map upd agg))"
    unfolding ca by (rule sum_list_sort_key)
  also have "\<dots> = sum_list (map Order_count agg)"
    by (simp add: o_def upd_def)
  also have "\<dots> = length df"
    by (simp add: agg_def category_agg_counts)
  finally show ?thesis
    using ok by (simp add: T_def agg_def)
qed

theorem category_shares_and_counts_witness:
  "ex_categories \<noteq> [] \<and> sum_list (map Total_Revenue (category_agg ex_categories)) \<noteq> 0
   \<and> revenue_pct_sum_ok (category_analysis ex_categories)
   \<and> sum_list (map Order_count (category_analysis ex_categories)) = length ex_categories
   \<and> map Revenue_pct (category_analysis ex_categories) = [Fin (125 / 2), Fin 25, Fin (25 / 2)]"
proof -
  have a: "ex_categories \<noteq> []"
    by (simp add: ex_categories_def)
  have b: "sum_list (map Total_Revenue (category_agg ex_categories)) \<noteq> 0"
    by (simp add: category_agg_def group_keys_def group_of_def ex_categories_def mk_order_def
        round_dec_def rint_def Let_def)
  from category_shares_and_counts [OF a] a b show ?thesis
    by (simp add: ex_categories_analysis)
qed

text \<open>
  C7 as stated fails when the total revenue is zero: the only share is NaN and does
  not sum to 100.
\<close>

theorem zero_revenue_shares_undefined:
  "ex_zero_revenue \<noteq> []
   \<and> map Revenue_pct (category_analysis ex_zero_revenue) = [NaN]
   \<and> \<not> revenue_pct_sum_ok (category_analysis ex_zero_revenue)"
  by (simp add: ex_zero_revenue_analysis revenue_pct_sum_ok_def fsum_def)
    (simp add: ex_zero_revenue_def)


subsection \<open>Return rates per category and overall\<close>

lemma group_nonempty: "c \<in> key ` set df \<Longrightarrow> group_of key df c \<noteq> []"
  by (auto simp: group_of_def filter_empty_conv)

lemma zip_same_maps: "zip (map f xs) (map g xs) = map (\<lambda>x. (f x, g x)) xs"
  by (induction xs) simp_all

lemma getcol_mapped:
  "find_col cols name = Some i \<Longrightarrow>
     getcol \<lparr>columns = cols, rows = map h ks\<rparr> name = Inr (map (\<lambda>c. snd (h c) ! i) ks)"
  by (simp add: getcol_def o_def)

lemma setcol_new_mapped:
  "find_col cols name = None \<Longrightarrow>
     setcol \<lparr>columns = cols, rows = map h ks\<rparr> name (map v ks)
       = \<lparr>columns = cols @ [name], rows = map (\<lambda>c. (fst (h c), snd (h c) @ [v c])) ks\<rparr>"
  by (simp add: setcol_def zip_same_maps o_def)

lemma rate_pct_mapped:
  "rate_pct (map a ks) (map b ks) = map (\<lambda>c. fmul (fdiv (a c) (b c)) (Fin 100)) ks"
  by (simp add: rate_pct_def zip_same_maps o_def)

lemma map2_fsub_mapped: "map2 fsub (map a ks) (map b ks) = map (\<lambda>c. fsub (a c) (b c)) ks"
  by (simp add: zip_same_maps o_def)

lemma renamed_agg:
  "rename_cols [(''order_id'', ''Total_Orders''), (''order_status'', ''Returns_Refunds'')]
     (returns_agg df)
   = \<lparr>columns = [''Total_Orders'', ''Returns_Refunds''],
      rows = map (\<lambda>c. (c, [Fin (real (length (group_of product_category df c))),
                            Fin (real (length (with_status category_return_statuses
                                                 (group_of product_category df c))))]))
                 (group_keys product_category df)\<rparr>"
  by (simp add: rename_cols_def returns_agg_def with_status_def category_return_statuses_def
      Let_def)

lemma return_analysis_frame:
  "return_analysis R df =
     Inr \<lparr>columns = [''Total_Orders'', ''Returns_Refunds'', ''Return_Rate[%]'',
                     ''Completed_Orders'', ''Completion_Rate[%]''],
          rows = sort_by (\<lambda>r1 r2. desc_le (snd r1 ! 2) (snd r2 ! 2))
                   (map (ra_row R df) (group_keys product_category df))\<rparr>"
  unfolding return_analysis_def renamed_agg Let_def
  by (simp add: getcol_mapped setcol_new_mapped rate_pct_mapped map2_fsub_mapped err_bind_def
      sort_values_desc_def ra_row_def [abs_def] fsub_def Let_def numeral_2_eq_2
      del: fdiv.simps)


lemma set_insort_by [simp]: "set (insort_by le x xs) = insert x (set xs)"
  by (induction xs) auto

lemma set_sort_by [simp]: "set (sort_by le xs) = set xs"
  by (induction xs) (simp_all add: sort_by_def)

lemma ra_row_fin:
  assumes "c \<in> product_category ` set df"
  shows "ra_row R df c =
      (c, [Fin (category_orders df c),
           Fin (category_returns df c),
           Fin (R (category_returns df c / category_orders df c * 100)),
           Fin (category_orders df c - category_returns df c),
           Fin (R ((category_orders df c - category_returns df c) / category_orders df c * 100))])"
proof -
  have "group_of product_category df c \<noteq> []"
    using assms by (rule group_nonempty)
  then have "category_orders df c \<noteq> 0"
    by (simp add: category_orders_def)
  then show ?thesis
    unfolding ra_row_def Let_def category_orders_def [symmetric] category_returns_def [symmetric]
    by simp
qed

lemma one_decimal_round_dec: "one_decimal (round_dec 1)"
proof -
  have "\<bar>round_dec 1 x - x\<bar> \<le> rate_tolerance" for x
    using round_dec_close [of x] by (simp add: rate_tolerance_def)
  then show ?thesis
    by (simp add: one_decimal_def)
qed

lemma returned_in_one_set:
  "''returned'' \<in> category_return_statuses" "''returned'' \<notin> overall_return_statuses"
  by (simp_all add: category_return_statuses_def overall_return_statuses_def)

lemma overall_status_pred:
  "(order_status x = ''cancelled'' \<or> order_status x = ''refunded'')
     = (order_status x \<in> overall_return_statuses)"
  by (simp add: overall_return_statuses_def)


text \<open>
  C6, as amended. On every order table the per-category table is computed; for each
  category its row holds the number of orders, the number of orders whose status is
  cancelled or returned, and as return rate the second divided by the first, times 100, up
  to the rounding to one decimal: the stored rate is within 0.05 (and the float64 error) of
  that value. The overall return rate counts the orders whose status is cancelled or
  refunded, divided by the number of orders, times 100, and the lost revenue is the sum of
  the order values over the same set. The two status sets differ.
\<close>

theorem return_rates:
  assumes "one_decimal R"
  shows "(\<exists>fr. return_analysis R df = Inr fr
        \<and> columns fr = [''Total_Orders'', ''Returns_Refunds'', ''Return_Rate[%]'',
                         ''Completed_Orders'', ''Completion_Rate[%]'']
        \<and> fst ` set (rows fr) = product_category ` set df
        \<and> (\<forall>c\<in>product_category ` set df. \<exists>rate crate.
              (c, [Fin (category_orders df c),
                   Fin (category_returns df c),
                   Fin rate,
                   Fin (category_orders df c - category_returns df c),
                   Fin crate]) \<in> set (rows fr)
              \<and> \<bar>rate - category_returns df c / category_orders df c * 100\<bar> \<le> rate_tolerance
              \<and> \<bar>crate - (category_orders df c - category_returns df c)
                            / category_orders df c * 100\<bar> \<le> rate_tolerance))
   \<and> total_returns df = length (with_status overall_return_statuses df)
   \<and> overall_return_rate df
       = fmul (fdiv (Fin (real (length (with_status overall_return_statuses df))))
                    (Fin (real (length df)))) (Fin 100)
   \<and> total_lost_revenue df
       = Fin (sum_list (map order_value (with_status overall_return_statuses df)))
   \<and> category_return_statuses \<noteq> overall_return_statuses"
proof -
  let ?rows = "sort_by (\<lambda>r1 r2. desc_le (snd r1 ! 2) (snd r2 ! 2))
                 (map (ra_row R df) (group_keys product_category df))"
  let ?fr = "\<lparr>columns = [''Total_Orders'', ''Returns_Refunds'', ''Return_Rate[%]'',
                          ''Completed_Orders'', ''Completion_Rate[%]''],
               rows = ?rows\<rparr>"
  have close: "\<bar>R x - x\<bar> \<le> rate_tolerance" for x
    using assms by (simp add: one_decimal_def)
  have fst_row: "fst (ra_row R df c) = c" for c
    by (simp add: ra_row_def Let_def)
  have rows: "set ?rows = ra_row R df ` product_category ` set df"
    by simp
  have 1: "return_analysis R df = Inr ?fr"
    by (rule return_analysis_frame)
  have 2: "columns ?fr = [''Total_Orders'', ''Returns_Refunds'', ''Return_Rate[%]'',
                          ''Completed_Orders'', ''Completion_Rate[%]'']"
    by simp
  have 3: "fst ` set (rows ?fr) = product_category ` set df"
    by (simp add: image_image fst_row)
  have 4: "\<forall>c\<in>product_category ` set df. \<exists>rate crate.
              (c, [Fin (category_orders df c),
                   Fin (category_returns df c),
                   Fin rate,
                   Fin (category_orders df c - category_returns df c),
                   Fin crate]) \<in> set (rows ?fr)
              \<and> \<bar>rate - category_returns df c / category_orders df c * 100\<bar> \<le> rate_tolerance
              \<and> \<bar>crate - (category_orders df c - category_returns df c)
                            / category_orders df c * 100\<bar> \<le> rate_tolerance"
  proof
    fix c
    assume c: "c \<in> product_category ` set df"
    let ?rate = "R (category_returns df c / category_orders df c * 100)"
    let ?crate = "R ((category_orders df c - category_returns df c) / category_orders df c * 100)"
    have "ra_row R df c \<in> set ?rows"
      unfolding rows using c by (rule imageI)
    then have "(c, [Fin (category_orders df c),
                   Fin (category_returns df c),
                   Fin ?rate,
                   Fin (category_orders df c - category_returns df c),
                   Fin ?crate]) \<in> set (rows ?fr)"
      unfolding ra_row_fin [OF c] by simp
    moreover have "\<bar>?rate - category_returns df c / category_orders df c * 100\<bar> \<le> rate_tolerance"
      by (rule close)
    moreover have "\<bar>?crate - (category_orders df c - category_returns df c)
                            / category_orders df c * 100\<bar> \<le> rate_tolerance"
      by (rule close)
    ultimately show "\<exists>rate crate.
              (c, [Fin (category_orders df c),
                   Fin (category_returns df c),
                   Fin rate,
                   Fin (category_orders df c - category_returns df c),
                   Fin crate]) \<in> set (rows ?fr)
              \<and> \<bar>rate - category_returns df c / category_orders df c * 100\<bar> \<le> rate_tolerance
              \<and> \<bar>crate - (category_orders df c - category_returns df c)
                            / category_orders df c * 100\<bar> \<le> rate_tolerance"
      by blast
  qed
  have ex: "\<exists>fr. return_analysis R df = Inr fr
        \<and> columns fr = [''Total_Orders'', ''Returns_Refunds'', ''Return_Rate[%]'',
                         ''Completed_Orders'', ''Completion_Rate[%]'']
        \<and> fst ` set (rows fr) = product_category ` set df
        \<and> (\<forall>c\<in>product_category ` set df. \<exists>rate crate.
              (c, [Fin (category_orders df c),
                   Fin (category_returns df c),
                   Fin rate,
                   Fin (category_orders df c - category_returns df c),
                   Fin crate]) \<in> set (rows fr)
              \<and> \<bar>rate - category_returns df c / category_orders df c * 100\<bar> \<le> rate_tolerance
              \<and> \<bar>crate - (category_orders df c - category_returns df c)
                            / category_orders df c * 100\<bar> \<le> rate_tolerance)"
    using 1 2 3 4 by (intro exI [of _ ?fr] conjI)
  have a: "total_returns df = length (with_status overall_return_statuses df)"
    by (simp add: total_returns_def with_status_def overall_status_pred)
  have b: "total_lost_revenue df
             = Fin (sum_list (map order_value (with_status overall_return_statuses df)))"
    by (simp add: total_lost_revenue_def with_status_def overall_status_pred series_sum_def)
  have c: "overall_return_rate df
       = fmul (fdiv (Fin (real (length (with_status overall_return_statuses df))))
                    (Fin (real (length df)))) (Fin 100)"
    unfolding overall_return_rate_def a total_orders_def ..
  have neq: "category_return_statuses \<noteq> overall_return_statuses"
    using returned_in_one_set by metis
  from ex a b c neq show ?thesis
    by (intro conjI)
qed

text \<open>
  In the examples the rounding is the one of exact arithmetic, \<open>round_dec 1\<close>, which gives
  what the code stores on these tables.
\<close>

lemma ex_returns_frame:
  "return_analysis (round_dec 1) ex_returns =
     Inr \<lparr>columns = [''Total_Orders'', ''Returns_Refunds'', ''Return_Rate[%]'',
                     ''Completed_Orders'', ''Completion_Rate[%]''],
          rows = [(''X'', [Fin 3, Fin 1, Fin (333 / 10), Fin 2, Fin (667 / 10)])]\<rparr>"
  by (simp add: return_analysis_frame ra_row_def group_keys_def group_of_def with_status_def
      category_return_statuses_def ex_returns_def mk_order_def sort_by_def round_dec_def rint_def
      Let_def)

lemma ex_returns_overall:
  "with_status overall_return_statuses ex_returns = [mk_order 3 3 12 30 0 ''X'' ''refunded'']"
  by (simp add: with_status_def overall_return_statuses_def ex_returns_def mk_order_def)

theorem return_rates_witness:
  "one_decimal (round_dec 1)
   \<and> ''X'' \<in> product_category ` set ex_returns
   \<and> return_analysis (round_dec 1) ex_returns =
       Inr \<lparr>columns = [''Total_Orders'', ''Returns_Refunds'', ''Return_Rate[%]'',
                       ''Completed_Orders'', ''Completion_Rate[%]''],
            rows = [(''X'', [Fin 3, Fin 1, Fin (333 / 10), Fin 2, Fin (667 / 10)])]\<rparr>
   \<and> total_returns ex_returns = 1
   \<and> overall_return_rate ex_returns = Fin (100 / 3)
   \<and> total_lost_revenue ex_returns = Fin 30"
proof -
  note t = return_rates [OF one_decimal_round_dec, of ex_returns]
  note t1 = t [THEN conjunct2, THEN conjunct1]
  note t2 = t [THEN conjunct2, THEN conjunct2, THEN conjunct1]
  note t3 = t [THEN conjunct2, THEN conjunct2, THEN conjunct2, THEN conjunct1]
  have x: "''X'' \<in> product_category ` set ex_returns"
    by (simp add: ex_returns_def mk_order_def)
  have l: "length ex_returns = 3"
    by (simp add: ex_returns_def)
  have "total_returns ex_returns = 1"
    unfolding t1 ex_returns_overall by simp
  moreover have "overall_return_rate ex_returns = Fin (100 / 3)"
    unfolding t2 ex_returns_overall l by simp
  moreover have "total_lost_revenue ex_returns = Fin 30"
    unfolding t3 ex_returns_overall by (simp add: mk_order_def)
  ultimately show ?thesis
    using x ex_returns_frame one_decimal_round_dec by simp
qed

text \<open>
  C6 as stated fails on the rounding: with one returned order out of three the stored
  rate is 33.3, not 100/3.
\<close>

theorem return_rate_is_rounded:
  "err_bind (return_analysis (round_dec 1) ex_returns) (\<lambda>fr. loc fr ''X'' ''Return_Rate[%]'')
     = Inr (Fin (333 / 10))
   \<and> category_returns ex_returns ''X'' / category_orders ex_returns ''X'' * 100 = 100 / 3
   \<and> Fin (333 / 10) \<noteq> Fin (100 / 3)"
proof -
  have "err_bind (return_analysis (round_dec 1) ex_returns)
          (\<lambda>fr. loc fr ''X'' ''Return_Rate[%]'') = Inr (Fin (333 / 10))"
    unfolding ex_returns_frame by (simp add: err_bind_def loc_def)
  moreover have "category_returns ex_returns ''X'' / category_orders ex_returns ''X'' * 100
                   = 100 / 3"
    by (simp add: category_returns_def category_orders_def with_status_def
        category_return_statuses_def group_of_def ex_returns_def mk_order_def)
  ultimately show ?thesis
    by simp
qed

subsection \<open>RFM table\<close>

lemma series_max_Cons: "series_max (x # xs) = Some (Max (set (x # xs)))"
  by (simp only: series_max_def list.case Max.set_eq_fold)

lemma series_max_Some:
  assumes "series_max xs = Some m"
  shows "m \<in> set xs \<and> (\<forall>x\<in>set xs. x \<le> m)"
proof (cases xs)
  case Nil
  with assms show ?thesis by (simp add: series_max_def)
next
  case (Cons y ys)
  with assms have m: "m = Max (set xs)"
    by (simp add: series_max_Cons)
  have "finite (set xs)" "set xs \<noteq> {}"
    using Cons by simp_all
  then show ?thesis
    unfolding m using Max_in Max_ge by blast
qed

lemma series_max_exists: "xs \<noteq> [] \<Longrightarrow> \<exists>m. series_max xs = Some m"
  by (cases xs) (simp_all add: series_max_def)

lemma whole_days: "day_ns \<le> a \<Longrightarrow> 1 \<le> a div day_ns"
proof -
  assume a: "day_ns \<le> a"
  have "0 < day_ns" by (simp add: day_ns_def)
  with a have "0 < a div day_ns"
    by (simp add: pos_imp_zdiv_pos_iff)
  then show ?thesis by simp
qed

lemma rfm_base_row:
  assumes "df \<noteq> []" and "row \<in> set (rfm_base df)"
  shows "\<exists>M m. series_max (map order_date df) = Some M
             \<and> reference_date df = Some (M + day_ns)
             \<and> series_max (map order_date (group_of customer_id df (Customer row))) = Some m
             \<and> m \<le> M
             \<and> Recency row = (M + day_ns - m) div day_ns
             \<and> Customer row \<in> customer_id ` set df
             \<and> Frequency row = length (group_of customer_id df (Customer row))
             \<and> Monetary row = sum_list (map order_value (group_of customer_id df (Customer row)))"
proof -
  obtain M where M: "series_max (map order_date df) = Some M"
    using assms(1) series_max_exists [of "map order_date df"] by auto
  then have ref: "reference_date df = Some (M + day_ns)"
    by (simp add: reference_date_def)
  from assms(2) obtain c where c: "c \<in> customer_id ` set df"
    and row: "row = \<lparr>Customer = c,
                     Recency = (case series_max (map order_date (group_of customer_id df c)) of
                                  Some m \<Rightarrow> (M + day_ns - m) div day_ns | None \<Rightarrow> 0),
                     Frequency = length (group_of customer_id df c),
                     Monetary = sum_list (map order_value (group_of customer_id df c))\<rparr>"
    by (auto simp: rfm_base_def ref Let_def)
  have "group_of customer_id df c \<noteq> []"
    using c by (rule group_nonempty)
  then obtain m where m: "series_max (map order_date (group_of customer_id df c)) = Some m"
    using series_max_exists [of "map order_date (group_of customer_id df c)"] by auto
  have "m \<in> set (map order_date (group_of customer_id df c))"
    using series_max_Some [OF m] by simp
  then have "m \<in> set (map order_date df)"
    by (auto simp: group_of_def)
  then have "m \<le> M"
    using series_max_Some [OF M] by blast
  with M ref m c row show ?thesis
    by simp
qed


lemma err_bind_Inr: "err_bind r k = Inr y \<longleftrightarrow> (\<exists>x. r = Inr x \<and> k x = Inr y)"
  by (cases r) (simp_all add: err_bind_def)

lemma astype_int_Some: "astype_int ys = Inr zs \<Longrightarrow> ys = map Some zs"
proof (induction ys arbitrary: zs)
  case Nil
  then show ?case by simp
next
  case (Cons y ys)
  then show ?case
    by (cases y) (auto split: sum.splits)
qed

lemma cut_id_le: "cut_id bins x \<le> length bins"
proof (cases bins)
  case Nil
  then show ?thesis by (simp add: cut_id_def)
next
  case (Cons b bs)
  have "length (filter (\<lambda>e. e < x) bins) \<le> length bins"
    by (rule length_filter_le)
  moreover have "1 \<le> length bins"
    using Cons by simp
  moreover have "cut_id bins x = (if x = b then 1 else length (filter (\<lambda>e. e < x) bins))"
    by (simp add: cut_id_def Cons)
  ultimately show ?thesis
    by (simp del: length_filter_le)
qed

lemma cut_ids_le: "i \<in> set (cut_ids bins xs) \<Longrightarrow> i \<le> length bins"
  by (auto simp: cut_ids_def cut_id_le)

lemma length_cut_ids [simp]: "length (cut_ids bins xs) = length xs"
  by (simp add: cut_ids_def)

lemma qcut_scores:
  assumes "qcut E xs labels = Inr ys" and "astype_int ys = Inr zs"
  shows "set zs \<subseteq> set labels \<and> length zs = length xs"
proof -
  define edges where "edges = (if xs = [] then [] else E xs)"
  define bins where
    "bins = (if length (remdups edges) < length edges \<and> length edges \<noteq> 2
             then remdups edges else edges)"
  define F where "F = (\<lambda>i. if i = 0 \<or> i = length bins then None else Some (labels ! (i - 1)))"
  from assms(1) have len: "length labels = length bins - 1"
    and ys: "ys = map F (cut_ids bins xs)"
    by (auto simp: qcut_def Let_def edges_def bins_def F_def split: if_splits)
  have some: "ys = map Some zs"
    using assms(2) by (rule astype_int_Some)
  have "z \<in> set labels" if "z \<in> set zs" for z
  proof -
    from that have "Some z \<in> set ys"
      by (simp add: some)
    then obtain i where i: "i \<in> set (cut_ids bins xs)" and Fi: "F i = Some z"
      by (auto simp: ys)
    from Fi have "i \<noteq> 0" "i \<noteq> length bins" and z: "z = labels ! (i - 1)"
      by (auto simp: F_def split: if_splits)
    moreover have "i \<le> length bins"
      using i by (rule cut_ids_le)
    ultimately have "i - 1 < length labels"
      using len by simp
    then show ?thesis
      unfolding z by (rule nth_mem)
  qed
  moreover have "length zs = length xs"
  proof -
    have "length zs = length ys" by (simp add: some)
    then show ?thesis by (simp add: ys)
  qed
  ultimately show ?thesis by blast
qed

lemma length_rank_first [simp]: "length (rank_first xs) = length xs"
  by (simp add: rank_first_def)

lemma rfm_table_Inr:
  assumes "rfm_table E df = Inr tbl"
  shows "\<exists>rs fs ms. tbl = score_rows (rfm_base df) rs fs ms
           \<and> set rs \<subseteq> {1, 2, 3, 4, 5} \<and> set fs \<subseteq> {1, 2, 3, 4, 5} \<and> set ms \<subseteq> {1, 2, 3, 4, 5}
           \<and> length rs = length (rfm_base df) \<and> length fs = length (rfm_base df)
           \<and> length ms = length (rfm_base df)"
proof -
  from assms obtain rs fs ms yr yf ym where
    r: "qcut E (map (\<lambda>x. real_of_int (Recency x)) (rfm_base df)) [5, 4, 3, 2, 1] = Inr yr"
       "astype_int yr = Inr rs"
    and f: "qcut E (rank_first (map (\<lambda>x. real (Frequency x)) (rfm_base df))) [1, 2, 3, 4, 5]
              = Inr yf"
       "astype_int yf = Inr fs"
    and m: "qcut E (rank_first (map Monetary (rfm_base df))) [1, 2, 3, 4, 5] = Inr ym"
       "astype_int ym = Inr ms"
    and tbl: "tbl = score_rows (rfm_base df) rs fs ms"
    unfolding rfm_table_def Let_def err_bind_Inr by blast
  from qcut_scores [OF r] qcut_scores [OF f] qcut_scores [OF m] tbl show ?thesis
    by auto
qed

lemma score_rows_member:
  assumes "row \<in> set (score_rows rfm rs fs ms)"
  shows "\<exists>x\<in>set rfm. Customer row = Customer x \<and> Recency row = Recency x
           \<and> Frequency row = Frequency x \<and> Monetary row = Monetary x
           \<and> R_score row \<in> set rs \<and> F_score row \<in> set fs \<and> M_score row \<in> set ms
           \<and> Segment row = segment_customer (R_score row) (F_score row) (M_score row)"
proof -
  from assms obtain x r f m where z: "(x, r, f, m) \<in> set (zip rfm (zip rs (zip fs ms)))"
    and row: "row = \<lparr>Customer = Customer x, Recency = Recency x, Frequency = Frequency x,
                     Monetary = Monetary x, R_score = r, F_score = f, M_score = m,
                     Segment = segment_customer r f m\<rparr>"
    by (auto simp: score_rows_def)
  from z have "x \<in> set rfm" and z1: "(r, f, m) \<in> set (zip rs (zip fs ms))"
    by (auto dest: set_zip_leftD set_zip_rightD)
  from z1 have "r \<in> set rs" and z2: "(f, m) \<in> set (zip fs ms)"
    by (auto dest: set_zip_leftD set_zip_rightD)
  from z2 have "f \<in> set fs" "m \<in> set ms"
    by (auto dest: set_zip_leftD set_zip_rightD)
  with \<open>x \<in> set rfm\<close> \<open>r \<in> set rs\<close> row show ?thesis
    by auto
qed

lemma score_rows_customers:
  assumes "length rs = length rfm" and "length fs = length rfm" and "length ms = length rfm"
  shows "map Customer (score_rows rfm rs fs ms) = map Customer rfm"
proof -
  have "map Customer (score_rows rfm rs fs ms)
        = map (\<lambda>p. Customer (fst p)) (zip rfm (zip rs (zip fs ms)))"
    by (simp add: score_rows_def case_prod_beta o_def)
  also have "\<dots> = map Customer (map fst (zip rfm (zip rs (zip fs ms))))"
    by (simp add: o_def)
  also have "map fst (zip rfm (zip rs (zip fs ms))) = rfm"
    using assms by (intro map_fst_zip) simp
  finally show ?thesis .
qed

lemma rfm_base_customers: "df \<noteq> [] \<Longrightarrow> map Customer (rfm_base df) = group_keys customer_id df"
proof -
  assume "df \<noteq> []"
  then obtain M where "series_max (map order_date df) = Some M"
    using series_max_exists [of "map order_date df"] by auto
  then show ?thesis
    by (simp add: rfm_base_def reference_date_def o_def Let_def)
qed


lemma ex_two_days_base:
  "rfm_base ex_two_days =
     [\<lparr>Customer = 1, Recency = 2, Frequency = 1, Monetary = 5\<rparr>,
      \<lparr>Customer = 2, Recency = 1, Frequency = 1, Monetary = 7\<rparr>]"
  by (simp add: rfm_base_def reference_date_def series_max_def group_keys_def group_of_def
      ex_two_days_def mk_order_def day_ns_def Let_def)

lemma ex_same_day_base:
  "rfm_base ex_same_day =
     [\<lparr>Customer = 1, Recency = 1, Frequency = 1, Monetary = 20\<rparr>,
      \<lparr>Customer = 2, Recency = 1, Frequency = 1, Monetary = 35\<rparr>,
      \<lparr>Customer = 3, Recency = 1, Frequency = 1, Monetary = 50\<rparr>,
      \<lparr>Customer = 4, Recency = 1, Frequency = 1, Monetary = 15\<rparr>,
      \<lparr>Customer = 5, Recency = 1, Frequency = 1, Monetary = 80\<rparr>]"
  by (simp add: rfm_base_def reference_date_def series_max_def group_keys_def group_of_def
      ex_same_day_def mk_order_def day_ns_def Let_def)

lemma remdups_constant: "set es \<subseteq> {v} \<Longrightarrow> length (remdups es) \<le> 1"
proof -
  assume "set es \<subseteq> {v}"
  then have "card (set es) \<le> card {v}"
    by (intro card_mono) simp_all
  then show ?thesis
    by (simp add: length_remdups_card_conv)
qed

lemma qcut_constant:
  assumes "constant_edges E" and "set xs \<subseteq> {v}"
  shows "qcut E xs [5, 4, 3, 2, 1] = Inl (ValueError bin_labels_msg)"
proof -
  define edges where "edges = (if xs = [] then [] else E xs)"
  define bins where
    "bins = (if length (remdups edges) < length edges \<and> length edges \<noteq> 2
             then remdups edges else edges)"
  have "set edges \<subseteq> {v}"
    using assms by (auto simp: edges_def constant_edges_def)
  then have "length (remdups edges) \<le> 1"
    by (rule remdups_constant)
  then have "length bins \<le> 2"
    by (auto simp: bins_def)
  then have "length [5, 4, 3, 2, 1 :: int] \<noteq> length bins - 1"
    by simp
  then show ?thesis
    unfolding qcut_def Let_def edges_def [symmetric] bins_def [symmetric] by simp
qed

lemma exact_quantile_constant:
  assumes "xs \<noteq> []" and "set xs \<subseteq> {v}" and "0 \<le> q" and "q \<le> 1"
  shows "exact_quantile xs q = v"
proof -
  define s where "s = sort xs"
  define lo where "lo = nat \<lfloor>q * (real (length s) - 1)\<rfloor>"
  define hi where "hi = min (lo + 1) (length s - 1)"
  have n: "0 < length s"
    using assms(1) by (simp add: s_def)
  have nth: "s ! i = v" if "i < length s" for i
  proof -
    have "s ! i \<in> set s" using that by (rule nth_mem)
    then show ?thesis using assms(2) by (auto simp: s_def)
  qed
  have "0 \<le> real (length s) - 1"
    using n by (cases s) simp_all
  with assms(4) have "q * (real (length s) - 1) \<le> 1 * (real (length s) - 1)"
    by (rule mult_right_mono)
  then have "q * (real (length s) - 1) < real_of_int (int (length s))"
    by simp
  then have "\<lfloor>q * (real (length s) - 1)\<rfloor> < int (length s)"
    by (simp only: floor_less_iff)
  then have "lo < length s"
    unfolding lo_def using n by arith
  moreover have "hi < length s"
    unfolding hi_def using n by arith
  ultimately have "s ! lo = v" "s ! hi = v"
    by (simp_all add: nth)
  then show ?thesis
    unfolding exact_quantile_def Let_def s_def [symmetric] lo_def [symmetric] hi_def [symmetric]
    by simp
qed

lemma exact_edges_constant: "constant_edges exact_edges"
  unfolding constant_edges_def
proof (intro allI impI)
  fix xs :: "real list" and v
  assume "set xs \<subseteq> {v}"
  then show "set (exact_edges xs) \<subseteq> {v}"
    by (cases "xs = []") (simp_all add: exact_edges_def exact_quantile_constant)
qed

lemma qcut_two_recency:
  "qcut exact_edges [2, 1] [5, 4, 3, 2, 1] = Inr [Some 1, Some 5]"
  by (simp add: qcut_def exact_edges_def exact_quantile_def cut_ids_def cut_id_def Let_def)

lemma rank_first_two: "rank_first [1, 1] = [1, 2]" "rank_first [5, 7] = [1, 2]"
  by (simp_all add: rank_first_def upt_rec)

lemma qcut_two_ranks:
  "qcut exact_edges [1, 2] [1, 2, 3, 4, 5] = Inr [Some 1, Some 5]"
  by (simp add: qcut_def exact_edges_def exact_quantile_def cut_ids_def cut_id_def Let_def)

lemma ex_two_days_table:
  "rfm_table exact_edges ex_two_days =
     Inr [\<lparr>Customer = 1, Recency = 2, Frequency = 1, Monetary = 5, R_score = 1, F_score = 1,
           M_score = 1, Segment = ''Lost''\<rparr>,
          \<lparr>Customer = 2, Recency = 1, Frequency = 1, Monetary = 7, R_score = 5, F_score = 5,
           M_score = 5, Segment = ''Champions''\<rparr>]"
  by (simp add: rfm_table_def ex_two_days_base qcut_two_recency rank_first_two qcut_two_ranks
      err_bind_def score_rows_def segment_customer_def)

text \<open>
  C10. On a non-empty order table the reference date is the largest order date of the
  table plus one day, no order is later than that largest date, and the recency of every
  customer of the RFM table is at least one day.
\<close>

theorem recency_at_least_one_day:
  assumes "df \<noteq> []" and "row \<in> set (rfm_base df)"
  shows "\<exists>M. series_max (map order_date df) = Some M
           \<and> list_all (\<lambda>x. order_date x \<le> M) df
           \<and> reference_date df = Some (M + day_ns)
           \<and> 1 \<le> Recency row"
proof -
  from rfm_base_row [OF assms] obtain M m where
    M: "series_max (map order_date df) = Some M"
    and ref: "reference_date df = Some (M + day_ns)"
    and le: "m \<le> M"
    and rec: "Recency row = (M + day_ns - m) div day_ns"
    by blast
  have "list_all (\<lambda>x. order_date x \<le> M) df"
    using series_max_Some [OF M] by (simp add: list_all_iff)
  moreover have "1 \<le> Recency row"
    unfolding rec using le by (intro whole_days) simp
  ultimately show ?thesis
    using M ref by blast
qed

theorem recency_at_least_one_day_witness:
  "ex_two_days \<noteq> []
   \<and> \<lparr>Customer = 2, Recency = 1, Frequency = 1, Monetary = 7\<rparr> \<in> set (rfm_base ex_two_days)
   \<and> series_max (map order_date ex_two_days) = Some (11 * day_ns)
   \<and> reference_date ex_two_days = Some (12 * day_ns)
   \<and> 1 \<le> Recency \<lparr>Customer = 2, Recency = 1, Frequency = 1, Monetary = 7\<rparr>"
proof -
  have a: "ex_two_days \<noteq> []"
    by (simp add: ex_two_days_def)
  have b: "\<lparr>Customer = 2, Recency = 1, Frequency = 1, Monetary = 7\<rparr> \<in> set (rfm_base ex_two_days)"
    by (simp add: ex_two_days_base)
  have m: "series_max (map order_date ex_two_days) = Some (11 * day_ns)"
    by (simp add: series_max_def ex_two_days_def mk_order_def day_ns_def)
  from recency_at_least_one_day [OF a b] m a b show ?thesis
    by auto
qed

text \<open>
  C5. On a non-empty order table, whatever edges the quantiles give, when the scored RFM
  table is computed every row of it has a recency of at least 0, a frequency of at least 1
  and three scores between 1 and 5; its customer has an order in the table, and the table
  has one row per distinct customer of the orders.
\<close>

theorem rfm_rows_invariant:
  assumes "df \<noteq> []" and "rfm_table E df = Inr tbl" and "row \<in> set tbl"
  shows "0 \<le> Recency row \<and> 1 \<le> Frequency row
       \<and> score_ok (R_score row) \<and> score_ok (F_score row) \<and> score_ok (M_score row)
       \<and> Customer row \<in> customer_id ` set df
       \<and> map Customer tbl = group_keys customer_id df"
proof -
  from rfm_table_Inr [OF assms(2)] obtain rs fs ms where
    tbl: "tbl = score_rows (rfm_base df) rs fs ms"
    and rs: "set rs \<subseteq> {1, 2, 3, 4, 5}" and fs: "set fs \<subseteq> {1, 2, 3, 4, 5}"
    and ms: "set ms \<subseteq> {1, 2, 3, 4, 5}"
    and len: "length rs = length (rfm_base df)" "length fs = length (rfm_base df)"
      "length ms = length (rfm_base df)"
    by blast
  from assms(3) tbl score_rows_member [of row "rfm_base df" rs fs ms] obtain x where
    x: "x \<in> set (rfm_base df)"
    and eq: "Customer row = Customer x" "Recency row = Recency x" "Frequency row = Frequency x"
    and sc: "R_score row \<in> set rs" "F_score row \<in> set fs" "M_score row \<in> set ms"
    by blast
  from rfm_base_row [OF assms(1) x] obtain M m where
    le: "m \<le> M" and rec: "Recency x = (M + day_ns - m) div day_ns"
    and cust: "Customer x \<in> customer_id ` set df"
    and freq: "Frequency x = length (group_of customer_id df (Customer x))"
    by blast
  have "1 \<le> Recency x"
    unfolding rec using le by (intro whole_days) simp
  then have a: "0 \<le> Recency row"
    by (simp add: eq)
  have "group_of customer_id df (Customer x) \<noteq> []"
    using cust by (rule group_nonempty)
  then have b: "1 \<le> Frequency row"
    by (simp add: eq freq Suc_le_eq)
  have c: "score_ok (R_score row)" "score_ok (F_score row)" "score_ok (M_score row)"
    using sc rs fs ms by (auto simp: score_ok_def)
  have d: "map Customer tbl = group_keys customer_id df"
    unfolding tbl using len assms(1) by (simp add: score_rows_customers rfm_base_customers)
  from a b c cust d show ?thesis
    by (simp add: eq)
qed

theorem rfm_rows_invariant_witness:
  "ex_two_days \<noteq> []
   \<and> rfm_table exact_edges ex_two_days =
       Inr [\<lparr>Customer = 1, Recency = 2, Frequency = 1, Monetary = 5, R_score = 1, F_score = 1,
             M_score = 1, Segment = ''Lost''\<rparr>,
            \<lparr>Customer = 2, Recency = 1, Frequency = 1, Monetary = 7, R_score = 5, F_score = 5,
             M_score = 5, Segment = ''Champions''\<rparr>]
   \<and> score_ok (R_score \<lparr>Customer = 2, Recency = 1, Frequency = 1, Monetary = 7, R_score = 5,
                          F_score = 5, M_score = 5, Segment = ''Champions''\<rparr>)
   \<and> group_keys customer_id ex_two_days = [1, 2]"
proof -
  let ?row = "\<lparr>Customer = 2, Recency = 1, Frequency = 1, Monetary = 7, R_score = 5,
               F_score = 5, M_score = 5, Segment = ''Champions''\<rparr>"
  have a: "ex_two_days \<noteq> []"
    by (simp add: ex_two_days_def)
  have c: "?row \<in> set [\<lparr>Customer = 1, Recency = 2, Frequency = 1, Monetary = 5, R_score = 1,
                         F_score = 1, M_score = 1, Segment = ''Lost''\<rparr>, ?row]"
    by simp
  note t = rfm_rows_invariant [OF a ex_two_days_table c]
  from t a ex_two_days_table show ?thesis
    by simp
qed

text \<open>
  C2 does not hold of the code. When the customers' recencies repeat so often that two
  quintile edges coincide, the edges that are left after dropping the repeated ones no
  longer match the five labels, and \<open>qcut\<close> raises ValueError: no customer gets a score.
  Here five customers placed their only order on the same day, so that every recency is 1
  and every edge is 1.
\<close>

theorem same_day_scoring_fails:
  assumes "constant_edges E"
  shows "rfm_table E ex_same_day = Inl (ValueError bin_labels_msg)"
proof -
  have "set (map (\<lambda>x. real_of_int (Recency x)) (rfm_base ex_same_day)) \<subseteq> {1}"
    by (simp add: ex_same_day_base)
  with assms
  have "qcut E (map (\<lambda>x. real_of_int (Recency x)) (rfm_base ex_same_day)) [5, 4, 3, 2, 1]
          = Inl (ValueError bin_labels_msg)"
    by (rule qcut_constant)
  then show ?thesis
    by (simp add: rfm_table_def err_bind_def Let_def)
qed

theorem same_day_scoring_fails_witness:
  "constant_edges exact_edges
   \<and> rfm_table exact_edges ex_same_day = Inl (ValueError bin_labels_msg)"
  using same_day_scoring_fails [OF exact_edges_constant] exact_edges_constant by simp

end
